theory Spec2Isabelle
  imports Complex_Main "HOL-Library.Word" "HOL-Library.Log_Nat"
begin

unbundle bit_operations_syntax

section \<open>Data model of \<open>src/magichome.py\<close>\<close>

text \<open>
  Python integers are unbounded, so the channels of a colour state are \<open>int\<close>. A value of
  Python's \<open>bytes\<close> that carries a command or a query response is a list of integers, each
  between 0 and 255; a datagram of the discovery handshake is ASCII text and is a
  \<open>string\<close>, whose characters are bytes.
\<close>

record MagicHomeControllerColorState =
  r :: int
  g :: int
  b :: int
  w :: int

record MagicHomeControllerState =
  is_on :: "bool option"
  color :: MagicHomeControllerColorState

text \<open>
  The exceptions the modelled paths raise. \<open>IndexError\<close>, \<open>TypeError\<close>,
  \<open>ZeroDivisionError\<close>, \<open>ValueError\<close> and \<open>OverflowError\<close> are Python's built-in
  exceptions (indexing past the end of \<open>bytes\<close>; subscripting \<open>None\<close>, or a call with
  too many positional arguments; a division by zero; \<open>int\<close> of a NaN; \<open>int\<close> of an
  infinity, or a conversion to \<open>float\<close> of an integer that is too large).
  \<open>MagicHomeDeviceNotFound\<close> is the repository's own exception and carries the tail
  of its message. The module defines no other exception class.
\<close>

datatype pyerr = IndexError | TypeError | ZeroDivisionError | ValueError | OverflowError
  | MagicHomeDeviceNotFound string

section \<open>Controller session\<close>

text \<open>
  The network seen from one controller object: \<open>sent\<close> collects the payloads written
  to the control port, oldest first, one connection each; \<open>inbox\<close> holds what
  \<open>recv\<close> will give for each awaited response, \<open>None\<close> standing for
  \<open>socket.timeout\<close>. An exhausted inbox is a peer that stays silent, so it times out
  too. Failures of \<open>connect\<close> and \<open>send\<close> themselves are outside the model.
\<close>

record net =
  sent :: "int list list"
  inbox :: "int list option list"

definition stream_checksum :: "int list \<Rightarrow> int list" where
  "stream_checksum stream = [sum_list stream AND 0xff]"

definition send :: "int list \<Rightarrow> bool \<Rightarrow> net \<Rightarrow> int list option \<times> net" where
  "send data get_response n =
     (let n1 = n\<lparr>sent := sent n @ [data]\<rparr>
      in if \<not> get_response then (None, n1)
         else (case inbox n1 of
                 [] \<Rightarrow> (None, n1)
               | response # rest \<Rightarrow> (response, n1\<lparr>inbox := rest\<rparr>)))"

definition turn_on :: "net \<Rightarrow> net" where
  "turn_on n = snd (send [0x71, 0x23, 0x94] False n)"

definition turn_off :: "net \<Rightarrow> net" where
  "turn_off n = snd (send [0x71, 0x24, 0x95] False n)"

text \<open>
  \<open>__int2byte\<close>: the two guards leave \<open>bytes([i])\<close> only values it accepts, so the
  result is always one byte.
\<close>

definition int2byte :: "int \<Rightarrow> int list" where
  "int2byte i = (if i < 0 then [0x00] else if i > 255 then [0xff] else [i])"

text \<open>The frame built by \<open>color\<close> before it is handed to \<open>_send\<close>.\<close>

definition color_command :: "int \<Rightarrow> int \<Rightarrow> int \<Rightarrow> int \<Rightarrow> int list" where
  "color_command cr cg cb cw =
     (let command = [0x31] @ int2byte cr @ int2byte cg @ int2byte cb @ int2byte cw @ [0x0f]
      in command @ stream_checksum command)"

definition set_color :: "int \<Rightarrow> int \<Rightarrow> int \<Rightarrow> int \<Rightarrow> net \<Rightarrow> net" where
  "set_color cr cg cb cw n = snd (send (color_command cr cg cb cw) False n)"

text \<open>
  Reading one byte of a response: Python raises \<open>IndexError\<close> past the end.
\<close>

definition byte_at :: "int list \<Rightarrow> nat \<Rightarrow> pyerr + int" where
  "byte_at response i = (if i < length response then Inr (response ! i) else Inl IndexError)"

text \<open>
  The getter of the \<open>state\<close> property. When \<open>_send\<close> returns \<open>None\<close>, the
  first use of the response raises \<open>TypeError\<close>: the debug line iterates over it when
  debug logging is on, and \<open>response[2]\<close> subscripts it otherwise. The second test of
  byte 2 compares with the same value as the first, as the source does.
\<close>

definition get_state :: "net \<Rightarrow> (pyerr + MagicHomeControllerState) \<times> net" where
  "get_state n =
     (let (response, n1) = send [0x81, 0x8a, 0x8b, 0x96] True n
      in (case response of
            None \<Rightarrow> Inl TypeError
          | Some resp \<Rightarrow>
              (case byte_at resp 2 of
                 Inl e \<Rightarrow> Inl e
               | Inr status \<Rightarrow>
                   (let on = (if status = 0x23 then Some True
                              else if status = 0x23 then Some False
                              else None)
                    in case byte_at resp 6 of Inl e \<Rightarrow> Inl e | Inr cr \<Rightarrow>
                       (case byte_at resp 7 of Inl e \<Rightarrow> Inl e | Inr cg \<Rightarrow>
                       (case byte_at resp 8 of Inl e \<Rightarrow> Inl e | Inr cb \<Rightarrow>
                       (case byte_at resp 9 of Inl e \<Rightarrow> Inl e | Inr cw \<Rightarrow>
                          Inr \<lparr>is_on = on,
                               color = \<lparr>r = cr, g = cg, b = cb, w = cw\<rparr>\<rparr>))))), n1))"

definition power_toggle :: "net \<Rightarrow> (pyerr + unit) \<times> net" where
  "power_toggle n =
     (case get_state n of
        (Inl e, n1) \<Rightarrow> (Inl e, n1)
      | (Inr st, n1) \<Rightarrow>
          if is_on st = Some True then (Inr (), turn_off n1) else (Inr (), turn_on n1))"

text \<open>Python's truth value of an \<open>Optional[bool]\<close>: \<open>None\<close> and \<open>False\<close> are false.\<close>

definition truthy :: "bool option \<Rightarrow> bool" where
  "truthy v = (case v of None \<Rightarrow> False | Some t \<Rightarrow> t)"

text \<open>The setter of the \<open>state\<close> property.\<close>

definition set_state :: "MagicHomeControllerState \<Rightarrow> net \<Rightarrow> net" where
  "set_state s n =
     (if \<not> truthy (is_on s) then turn_off n
      else set_color (r (color s)) (g (color s)) (b (color s)) (w (color s)) n)"

section \<open>Binary floating point\<close>

text \<open>
  Python's \<open>float\<close> is the IEEE 754 binary64 format. A float is modelled by its exact
  value: a rational number, one of the two infinities, or NaN. The two zeros are the
  one value \<open>Fin 0\<close>: the code below adds, multiplies, compares and truncates floats,
  and divides only where Python raises for either zero, so it never tells them apart.
\<close>

datatype pyfloat = Fin rat | PosInf | NegInf | NaN

text \<open>Rounding to the nearest integer, a tie going to the even one.\<close>

definition round_even :: "rat \<Rightarrow> int" where
  "round_even x =
     (let f = \<lfloor>x\<rfloor>; d = x - of_int f
      in if d < 1 / 2 then f
         else if 1 / 2 < d then f + 1
         else if even f then f else f + 1)"

text \<open>
  The binary exponent of a positive rational \<open>x\<close>, the largest \<open>e\<close> with
  \<open>2 powi e \<le> x\<close>: the difference of the bit lengths of numerator and denominator,
  or one less.
\<close>

definition ilog2 :: "rat \<Rightarrow> int" where
  "ilog2 x =
     (case quotient_of x of
        (p, q) \<Rightarrow> (let k = bitlen p - bitlen q in if 2 powi k \<le> x then k else k - 1))"

text \<open>
  The binary64 value of an exact result: round to nearest, ties to even. With exponent
  \<open>e\<close> (not below -1022, where the subnormal numbers begin) the representable numbers
  are the multiples of \<open>2 powi (e - 52)\<close>; a result that rounds to \<open>2 powi 1024\<close>
  or beyond is an infinity.
\<close>

definition round64 :: "rat \<Rightarrow> pyfloat" where
  "round64 x =
     (if x = 0 then Fin 0
      else (let e = max (ilog2 \<bar>x\<bar>) (- 1022);
                q = 2 powi (e - 52);
                m = round_even (\<bar>x\<bar> / q)
            in if 1023 < e \<or> (e = 1023 \<and> m = 2 ^ 53)
               then (if 0 < x then PosInf else NegInf)
               else Fin (sgn x * of_int m * q)))"

text \<open>Negation, addition, subtraction and multiplication of floats.\<close>

fun fneg :: "pyfloat \<Rightarrow> pyfloat" where
  "fneg (Fin x) = Fin (- x)"
| "fneg PosInf = NegInf"
| "fneg NegInf = PosInf"
| "fneg NaN = NaN"

fun fadd :: "pyfloat \<Rightarrow> pyfloat \<Rightarrow> pyfloat" where
  "fadd (Fin x) (Fin y) = round64 (x + y)"
| "fadd NaN y = NaN"
| "fadd x NaN = NaN"
| "fadd PosInf NegInf = NaN"
| "fadd NegInf PosInf = NaN"
| "fadd PosInf y = PosInf"
| "fadd NegInf y = NegInf"
| "fadd x PosInf = PosInf"
| "fadd x NegInf = NegInf"

definition fsub :: "pyfloat \<Rightarrow> pyfloat \<Rightarrow> pyfloat" where
  "fsub x y = fadd x (fneg y)"

fun fsign :: "pyfloat \<Rightarrow> int" where
  "fsign (Fin x) = sgn \<lfloor>sgn x\<rfloor>"
| "fsign PosInf = 1"
| "fsign NegInf = - 1"
| "fsign NaN = 0"

fun fmul :: "pyfloat \<Rightarrow> pyfloat \<Rightarrow> pyfloat" where
  "fmul (Fin x) (Fin y) = round64 (x * y)"
| "fmul NaN y = NaN"
| "fmul x NaN = NaN"
| "fmul x y =
     (if fsign x * fsign y = 0 then NaN
      else if 0 < fsign x * fsign y then PosInf else NegInf)"

text \<open>
  Python's \<open>x / y\<close> on floats raises \<open>ZeroDivisionError\<close> when \<open>y\<close> is zero, whatever
  \<open>x\<close> is; otherwise it is the IEEE division.
\<close>

fun fdiv :: "pyfloat \<Rightarrow> pyfloat \<Rightarrow> pyerr + pyfloat" where
  "fdiv x (Fin y) =
     (if y = 0 then Inl ZeroDivisionError
      else (case x of
              Fin a \<Rightarrow> Inr (round64 (a / y))
            | NaN \<Rightarrow> Inr NaN
            | PosInf \<Rightarrow> Inr (if 0 < y then PosInf else NegInf)
            | NegInf \<Rightarrow> Inr (if 0 < y then NegInf else PosInf)))"
| "fdiv x NaN = Inr NaN"
| "fdiv (Fin a) y = Inr (Fin 0)"
| "fdiv x y = Inr NaN"

text \<open>The comparisons \<open><\<close>, \<open><=\<close> and \<open>==\<close>; each is false when an operand is NaN.\<close>

fun flt :: "pyfloat \<Rightarrow> pyfloat \<Rightarrow> bool" where
  "flt (Fin x) (Fin y) = (x < y)"
| "flt NaN y = False"
| "flt x NaN = False"
| "flt x NegInf = False"
| "flt PosInf y = False"
| "flt x PosInf = True"
| "flt NegInf y = True"

definition fle :: "pyfloat \<Rightarrow> pyfloat \<Rightarrow> bool" where
  "fle x y = (flt x y \<or> (x = y \<and> x \<noteq> NaN))"

definition feq :: "pyfloat \<Rightarrow> pyfloat \<Rightarrow> bool" where
  "feq x y = (x = y \<and> x \<noteq> NaN)"

text \<open>
  Python's \<open>x % 1.0\<close>: the C function \<open>fmod\<close> gives \<open>x\<close> minus its integer part,
  exactly; a negative remainder is then increased by \<open>1.0\<close>, which rounds. Of an
  infinity or NaN the result is NaN.
\<close>

fun fmod1 :: "pyfloat \<Rightarrow> pyfloat" where
  "fmod1 (Fin x) =
     (let m = x - of_int (if x < 0 then \<lceil>x\<rceil> else \<lfloor>x\<rfloor>)
      in if m = 0 then Fin 0 else if m < 0 then round64 (m + 1) else Fin m)"
| "fmod1 x = NaN"

text \<open>
  An integer operand of a float operation is converted first; the conversion rounds and
  raises \<open>OverflowError\<close> when the integer is too large. The quotient \<open>a / c\<close> of two
  integers is the float nearest to the exact quotient, with \<open>ZeroDivisionError\<close> for
  \<open>c = 0\<close> and \<open>OverflowError\<close> when the quotient is too large.
\<close>

definition int_to_float :: "int \<Rightarrow> pyerr + pyfloat" where
  "int_to_float n =
     (case round64 (of_int n) of
        Fin x \<Rightarrow> Inr (Fin x)
      | other \<Rightarrow> Inl OverflowError)"

definition int_truediv :: "int \<Rightarrow> int \<Rightarrow> pyerr + pyfloat" where
  "int_truediv a c =
     (if c = 0 then Inl ZeroDivisionError
      else (case round64 (of_int a / of_int c) of
              Fin x \<Rightarrow> Inr (Fin x)
            | other \<Rightarrow> Inl OverflowError))"

text \<open>
  Python's \<open>int(x)\<close> of a float: truncation towards zero, \<open>ValueError\<close> for NaN and
  \<open>OverflowError\<close> for an infinity.
\<close>

fun py_int :: "pyfloat \<Rightarrow> pyerr + int" where
  "py_int (Fin x) = Inr (if x < 0 then \<lceil>x\<rceil> else \<lfloor>x\<rfloor>)"
| "py_int NaN = Inl ValueError"
| "py_int x = Inl OverflowError"

text \<open>Sequencing of steps that may raise: the first exception ends the computation.\<close>

definition and_then :: "'e + 'a \<Rightarrow> ('a \<Rightarrow> 'e + 'b) \<Rightarrow> 'e + 'b" where
  "and_then x f = (case x of Inl e \<Rightarrow> Inl e | Inr v \<Rightarrow> f v)"

section \<open>Brightness of a colour state\<close>

text \<open>
  \<open>change_brightness\<close> calls \<open>colorsys.rgb_to_hls\<close> and \<open>colorsys.hls_to_rgb\<close> of
  Python's standard library (CPython 3.11); the definitions below follow that module
  line by line, each arithmetic operation rounding as the float operation does. The
  module's constants are the floats \<open>1.0/3.0\<close>, \<open>1.0/6.0\<close> and \<open>2.0/3.0\<close>.
\<close>

definition ONE_THIRD :: pyfloat where "ONE_THIRD = round64 (1 / 3)"
definition ONE_SIXTH :: pyfloat where "ONE_SIXTH = round64 (1 / 6)"
definition TWO_THIRD :: pyfloat where "TWO_THIRD = round64 (2 / 3)"

text \<open>
  The program passes the integer channels unscaled, so \<open>rgb_to_hls\<close> takes integers:
  \<open>sumc / 2.0\<close> converts \<open>sumc\<close>, \<open>rangec / sumc\<close> and the three quotients by
  \<open>rangec\<close> are divisions of integers, and \<open>rangec / (2.0 - maxc - minc)\<close> converts
  \<open>maxc\<close>, \<open>minc\<close> and \<open>rangec\<close>.
\<close>

definition rgb_to_hls :: "int \<Rightarrow> int \<Rightarrow> int \<Rightarrow> pyerr + pyfloat \<times> pyfloat \<times> pyfloat" where
  "rgb_to_hls cr cg cb =
     (let maxc = max cr (max cg cb);
          minc = min cr (min cg cb);
          sumc = maxc + minc;
          rangec = maxc - minc
      in and_then (int_to_float sumc) (\<lambda>fsum.
         and_then (fdiv fsum (Fin 2)) (\<lambda>l.
         if minc = maxc then Inr (Fin 0, l, Fin 0)
         else
           and_then
             (if fle l (Fin (1 / 2)) then int_truediv rangec sumc
              else and_then (int_to_float maxc) (\<lambda>fmax.
                   and_then (int_to_float minc) (\<lambda>fmin.
                   and_then (int_to_float rangec) (\<lambda>frange.
                     fdiv frange (fsub (fsub (Fin 2) fmax) fmin)))))
             (\<lambda>s.
         and_then (int_truediv (maxc - cr) rangec) (\<lambda>rc.
         and_then (int_truediv (maxc - cg) rangec) (\<lambda>gc.
         and_then (int_truediv (maxc - cb) rangec) (\<lambda>bc.
         and_then
           (fdiv (if cr = maxc then fsub bc gc
                  else if cg = maxc then fsub (fadd (Fin 2) rc) bc
                  else fsub (fadd (Fin 4) gc) rc)
                 (Fin 6))
           (\<lambda>h6. Inr (fmod1 h6, l, s)))))))))"

text \<open>\<open>colorsys._v\<close>.\<close>

definition hls_v :: "pyfloat \<Rightarrow> pyfloat \<Rightarrow> pyfloat \<Rightarrow> pyfloat" where
  "hls_v m1 m2 hue0 =
     (let hue = fmod1 hue0
      in if flt hue ONE_SIXTH then fadd m1 (fmul (fmul (fsub m2 m1) hue) (Fin 6))
         else if flt hue (Fin (1 / 2)) then m2
         else if flt hue TWO_THIRD
              then fadd m1 (fmul (fmul (fsub m2 m1) (fsub TWO_THIRD hue)) (Fin 6))
         else m1)"

definition hls_to_rgb :: "pyfloat \<Rightarrow> pyfloat \<Rightarrow> pyfloat \<Rightarrow> pyfloat \<times> pyfloat \<times> pyfloat" where
  "hls_to_rgb h l s =
     (if feq s (Fin 0) then (l, l, l)
      else (let m2 = (if fle l (Fin (1 / 2)) then fmul l (fadd (Fin 1) s)
                      else fsub (fadd l s) (fmul l s));
                m1 = fsub (fmul (Fin 2) l) m2
            in (hls_v m1 m2 (fadd h ONE_THIRD), hls_v m1 m2 h, hls_v m1 m2 (fsub h ONE_THIRD))))"

text \<open>
  The luminance that \<open>change_brightness\<close> hands to \<open>hls_to_rgb\<close>: the delta is
  multiplied or added, and the result is set to 0 when it is below 0 and to 255 when it
  is above 255. Both tests are false for NaN, which is handed on as it is.
\<close>

definition adjust_luminance :: "pyfloat \<Rightarrow> pyfloat \<Rightarrow> bool \<Rightarrow> pyfloat" where
  "adjust_luminance l delta percentage =
     (let l1 = (if percentage then fmul l delta else fadd l delta)
      in if flt l1 (Fin 0) then Fin 0 else if flt (Fin 255) l1 then Fin 255 else l1)"

text \<open>
  The end of \<open>change_brightness\<close>: the conversion back and the three assignments
  \<open>self.r = int(r)\<close>, \<open>self.g = int(g)\<close>, \<open>self.b = int(b)\<close>. The model keeps the
  exception when one of them raises, not the assignments made before it.
\<close>

definition write_back ::
  "MagicHomeControllerColorState \<Rightarrow> pyfloat \<Rightarrow> pyfloat \<Rightarrow> pyfloat
     \<Rightarrow> pyerr + MagicHomeControllerColorState"
where
  "write_back self h l s =
     (case hls_to_rgb h l s of
        (r1, g1, b1) \<Rightarrow>
          and_then (py_int r1) (\<lambda>ri.
          and_then (py_int g1) (\<lambda>gi.
          and_then (py_int b1) (\<lambda>bi.
            Inr (self\<lparr>r := ri, g := gi, b := bi\<rparr>)))))"

text \<open>
  \<open>change_brightness\<close>. The delta is optional (\<open>delta is None\<close>) and is a float; an
  integer delta acts as the float it converts to. The method mutates the state and
  returns it, here it returns the new state.
\<close>

definition change_brightness ::
  "MagicHomeControllerColorState \<Rightarrow> pyfloat option \<Rightarrow> bool \<Rightarrow> pyerr + MagicHomeControllerColorState"
where
  "change_brightness self delta percentage =
     (case delta of
        None \<Rightarrow> Inr self
      | Some d \<Rightarrow>
          if feq d (Fin 0) then Inr self
          else and_then (rgb_to_hls (r self) (g self) (b self))
                 (\<lambda>(h, l, s). write_back self h (adjust_luminance l d percentage) s))"

section \<open>Discovery\<close>

text \<open>
  Datagrams of the discovery handshake are ASCII text, so they are modelled as
  \<open>string\<close>. \<open>split_bytes\<close> is Python's \<open>bytes.split\<close> with a one-byte separator:
  it always returns at least one field, and an empty datagram gives one empty field.
\<close>

definition broadcast_message :: string where
  "broadcast_message = ''HF-A11ASSISTHREAD''"

fun split_bytes :: "char \<Rightarrow> string \<Rightarrow> string list" where
  "split_bytes sep [] = [[]]"
| "split_bytes sep (c # cs) =
     (if c = sep then [] # split_bytes sep cs
      else (case split_bytes sep cs of
              [] \<Rightarrow> [[c]]
            | part # parts \<Rightarrow> (c # part) # parts))"

text \<open>
  A controller object. \<open>obj\<close> is the identity of the Python object: the class defines
  \<open>__hash__\<close> on the address and no \<open>__eq__\<close>, so two controllers compare equal
  only when they are the same object. \<open>__init__\<close> takes the address and, optionally,
  the id and the model; with more than three positional arguments (or none) the call
  raises \<open>TypeError\<close>.
\<close>

record MagicHomeController =
  obj :: nat
  ctrl_addr :: string
  ctrl_id :: "string option"
  ctrl_model :: "string option"

fun MagicHomeController_init :: "nat \<Rightarrow> string list \<Rightarrow> pyerr + MagicHomeController" where
  "MagicHomeController_init ob [a] =
     Inr \<lparr>obj = ob, ctrl_addr = a, ctrl_id = None, ctrl_model = None\<rparr>"
| "MagicHomeController_init ob [a, i] =
     Inr \<lparr>obj = ob, ctrl_addr = a, ctrl_id = Some i, ctrl_model = None\<rparr>"
| "MagicHomeController_init ob [a, i, m] =
     Inr \<lparr>obj = ob, ctrl_addr = a, ctrl_id = Some i, ctrl_model = Some m\<rparr>"
| "MagicHomeController_init ob args = Inl TypeError"

text \<open>
  \<open>__hash__\<close> and the inherited \<open>__eq__\<close>. The hash of a byte string is left as a
  parameter \<open>h\<close>: Python fixes it only per process.
\<close>

definition controller_hash :: "(string \<Rightarrow> int) \<Rightarrow> MagicHomeController \<Rightarrow> int" where
  "controller_hash h c = h (ctrl_addr c)"

definition controller_eq :: "MagicHomeController \<Rightarrow> MagicHomeController \<Rightarrow> bool" where
  "controller_eq x y = (obj x = obj y)"

text \<open>
  \<open>set.add\<close>: the element is left out when the set already holds one with the same
  hash that compares equal. The set is kept as a list in insertion order; the order in
  which Python iterates over it is unspecified, and the properties below speak of
  membership and counts only.
\<close>

definition set_add ::
  "(string \<Rightarrow> int) \<Rightarrow> MagicHomeController list \<Rightarrow> MagicHomeController \<Rightarrow> MagicHomeController list"
where
  "set_add h found c =
     (if list_ex (\<lambda>y. controller_hash h y = controller_hash h c \<and> controller_eq y c) found
      then found else found @ [c])"

text \<open>
  The receive loop of \<open>discover\<close>, over the datagrams that arrive before the first
  timeout. \<open>found\<close> is the set being built, \<open>warnings\<close> the datagrams reported by
  \<open>logger.warning\<close>, \<open>allocated\<close> the number of controller objects created so far,
  which names the next one.
\<close>

record discovery =
  found :: "MagicHomeController list"
  warnings :: "string list"
  allocated :: nat

fun discover_loop :: "(string \<Rightarrow> int) \<Rightarrow> string list \<Rightarrow> discovery \<Rightarrow> discovery" where
  "discover_loop h [] d = d"
| "discover_loop h (data # rest) d =
     (if data = broadcast_message then discover_loop h rest d
      else (case MagicHomeController_init (allocated d) (split_bytes CHR '','' data) of
              Inr c \<Rightarrow>
                discover_loop h rest
                  (d\<lparr>found := set_add h (found d) c, allocated := Suc (allocated d)\<rparr>)
            | Inl e \<Rightarrow>
                discover_loop h rest (d\<lparr>warnings := warnings d @ [data]\<rparr>)))"

definition discover :: "(string \<Rightarrow> int) \<Rightarrow> string list \<Rightarrow> discovery" where
  "discover h datagrams = discover_loop h datagrams \<lparr>found = [], warnings = [], allocated = 0\<rparr>"

text \<open>
  \<open>connect\<close>: \<open>received\<close> is the datagram returned by \<open>recvfrom\<close>, or \<open>None\<close> when
  it timed out. The exception carries the tail of the message of the source.
\<close>

definition connect :: "string option \<Rightarrow> pyerr + MagicHomeController" where
  "connect received =
     (case received of
        None \<Rightarrow> Inl (MagicHomeDeviceNotFound ''does not respond.'')
      | Some data \<Rightarrow>
          (case MagicHomeController_init 0 (split_bytes CHR '','' data) of
             Inl e \<Rightarrow> Inl (MagicHomeDeviceNotFound ''does not respond as expected.'')
           | Inr c \<Rightarrow> Inr c))"

text \<open>
  Two notions used to state what the loop does with one datagram: the identity it
  contributes to the result, and whether it is reported with a warning.
\<close>

definition yielded :: "string \<Rightarrow> (string \<times> string option \<times> string option) list" where
  "yielded data =
     (if data = broadcast_message then []
      else (case MagicHomeController_init 0 (split_bytes CHR '','' data) of
              Inr c \<Rightarrow> [(ctrl_addr c, ctrl_id c, ctrl_model c)]
            | Inl e \<Rightarrow> []))"

definition warned :: "string \<Rightarrow> bool" where
  "warned data \<longleftrightarrow> data \<noteq> broadcast_message \<and> 3 < length (split_bytes CHR '','' data)"

section \<open>Properties\<close>

lemma and_0xff_mod: "(x::int) AND 0xff = x mod 256"
proof -
  have m: "(0xff::int) = mask 8" by (simp add: mask_eq_exp_minus_1)
  have "x AND 0xff = take_bit 8 x" unfolding m by (simp only: take_bit_eq_mask)
  also have "\<dots> = x mod 256" by (simp add: take_bit_eq_mod)
  finally show ?thesis .
qed

lemma color_command_bytes:
  "color_command cr cg cb cw =
     (let command = [0x31] @ int2byte cr @ int2byte cg @ int2byte cb @ int2byte cw @ [0x0f]
      in command @ [sum_list command mod 256])"
  by (simp only: color_command_def stream_checksum_def and_0xff_mod)

lemma int2byte_val: "int2byte i = [if i < 0 then 0 else if 255 < i then 255 else i]"
  by (simp add: int2byte_def)

lemma frame_of_bytes:
  "(let command = [0x31] @ [c1] @ [c2] @ [c3] @ [c4] @ [0x0f]
    in command @ [sum_list command mod 256])
   = [0x31, c1, c2, c3, c4, 0x0f, (0x31 + c1 + c2 + c3 + c4 + 0x0f) mod (256::int)]"
  by (simp add: Let_def add.assoc)

lemma color_command_clamped:
  "color_command cr cg cb cw =
     [0x31,
      if cr < 0 then 0 else if 255 < cr then 255 else cr,
      if cg < 0 then 0 else if 255 < cg then 255 else cg,
      if cb < 0 then 0 else if 255 < cb then 255 else cb,
      if cw < 0 then 0 else if 255 < cw then 255 else cw,
      0x0f,
      (0x31 + (if cr < 0 then 0 else if 255 < cr then 255 else cr)
            + (if cg < 0 then 0 else if 255 < cg then 255 else cg)
            + (if cb < 0 then 0 else if 255 < cb then 255 else cb)
            + (if cw < 0 then 0 else if 255 < cw then 255 else cw) + 0x0f) mod 256]"
  by (simp only: color_command_bytes int2byte_val frame_of_bytes)

text \<open>
  Claim C1. For all integers, the frame that \<open>color\<close> hands to \<open>_send\<close> has seven
  bytes: \<open>0x31\<close>, the four channels clamped into 0..255 (below 0 gives 0, above 255
  gives 255), \<open>0x0f\<close>, and the sum of these six bytes modulo 256. For channels already
  in 0..255 the last byte is \<open>(0x31 + r + g + b + w + 0x0f) mod 256\<close>. The frame is what
  is written to the controller.
\<close>

theorem color_frame:
  fixes cr cg cb cw :: int
  defines "r' \<equiv> (if cr < 0 then 0 else if 255 < cr then 255 else cr)"
    and "g' \<equiv> (if cg < 0 then 0 else if 255 < cg then 255 else cg)"
    and "b' \<equiv> (if cb < 0 then 0 else if 255 < cb then 255 else cb)"
    and "w' \<equiv> (if cw < 0 then 0 else if 255 < cw then 255 else cw)"
  shows "color_command cr cg cb cw
           = [0x31, r', g', b', w', 0x0f, (0x31 + r' + g' + b' + w' + 0x0f) mod 256]
         \<and> (0 \<le> cr \<and> cr \<le> 255 \<and> 0 \<le> cg \<and> cg \<le> 255 \<and> 0 \<le> cb \<and> cb \<le> 255
              \<and> 0 \<le> cw \<and> cw \<le> 255
              \<longrightarrow> length (color_command cr cg cb cw) = 7
                \<and> last (color_command cr cg cb cw) = (0x31 + cr + cg + cb + cw + 0x0f) mod 256)
         \<and> sent (set_color cr cg cb cw n) = sent n @ [color_command cr cg cb cw]"
proof -
  have frame: "color_command cr cg cb cw
           = [0x31, r', g', b', w', 0x0f, (0x31 + r' + g' + b' + w' + 0x0f) mod 256]"
    unfolding r'_def g'_def b'_def w'_def by (rule color_command_clamped)
  have inrange: "length (color_command cr cg cb cw) = 7
      \<and> last (color_command cr cg cb cw) = (0x31 + cr + cg + cb + cw + 0x0f) mod 256"
    if h: "0 \<le> cr \<and> cr \<le> 255 \<and> 0 \<le> cg \<and> cg \<le> 255 \<and> 0 \<le> cb \<and> cb \<le> 255 \<and> 0 \<le> cw \<and> cw \<le> 255"
  proof -
    from h have "r' = cr" "g' = cg" "b' = cb" "w' = cw"
      by (simp_all add: r'_def g'_def b'_def w'_def)
    then show ?thesis by (simp add: frame)
  qed
  have wire: "sent (set_color cr cg cb cw n) = sent n @ [color_command cr cg cb cw]"
    by (simp add: set_color_def send_def)
  from frame inrange wire show ?thesis by blast
qed

theorem color_frame_witness:
  "color_command (-5) 300 7 255 = [0x31, 0, 255, 7, 255, 0x0f, 69]
   \<and> last (color_command 10 20 30 40) = (0x31 + 10 + 20 + 30 + 40 + 0x0f) mod 256"
  using color_frame [of "-5" 300 7 255] color_frame [of 10 20 30 40] by simp

lemma get_state_ok:
  assumes len: "10 \<le> length resp" and inb: "inbox n = Some resp # rest"
  shows "get_state n =
     (Inr \<lparr>is_on = (if resp ! 2 = 0x23 then Some True else None),
           color = \<lparr>r = resp ! 6, g = resp ! 7, b = resp ! 8, w = resp ! 9\<rparr>\<rparr>,
      n\<lparr>sent := sent n @ [[0x81, 0x8a, 0x8b, 0x96]], inbox := rest\<rparr>)"
  using len inb by (simp add: get_state_def send_def byte_at_def Let_def)

lemma get_state_short:
  assumes len: "length resp < 10" and inb: "inbox n = Some resp # rest"
  shows "fst (get_state n) = Inl IndexError"
  using len inb by (simp add: get_state_def send_def byte_at_def Let_def)

lemma get_state_none:
  assumes inb: "inbox n = None # rest \<or> inbox n = []"
  shows "fst (get_state n) = Inl TypeError"
  using inb by (auto simp add: get_state_def send_def byte_at_def Let_def)

lemma sent_turn_on: "sent (turn_on n) = sent n @ [[0x71, 0x23, 0x94]]"
  by (simp add: turn_on_def send_def)

lemma sent_turn_off: "sent (turn_off n) = sent n @ [[0x71, 0x24, 0x95]]"
  by (simp add: turn_off_def send_def)

text \<open>
  Claim C2. When the controller answers the query with at least ten bytes, the getter
  returns a state whose flag is \<open>Some True\<close> exactly when byte 2 is \<open>0x23\<close>, is
  \<open>None\<close> (indeterminate) for every other value and is never \<open>Some False\<close>; its red,
  green, blue and white channels are bytes 6, 7, 8 and 9.
\<close>

theorem query_response_decoded:
  assumes "10 \<le> length resp" and "inbox n = Some resp # rest"
  shows "\<exists>st. fst (get_state n) = Inr st
           \<and> (is_on st = Some True \<longleftrightarrow> resp ! 2 = 0x23)
           \<and> (resp ! 2 \<noteq> 0x23 \<longrightarrow> is_on st = None)
           \<and> is_on st \<noteq> Some False
           \<and> r (color st) = resp ! 6 \<and> g (color st) = resp ! 7
           \<and> b (color st) = resp ! 8 \<and> w (color st) = resp ! 9"
  using assms by (simp add: get_state_ok)

theorem query_response_decoded_witness:
  "fst (get_state \<lparr>sent = [], inbox = [Some [0x81, 0x25, 0x23, 0x61, 0x21, 0x10, 10, 20, 30, 40]]\<rparr>)
     = Inr \<lparr>is_on = Some True, color = \<lparr>r = 10, g = 20, b = 30, w = 40\<rparr>\<rparr>"
  using query_response_decoded
    [of "[0x81, 0x25, 0x23, 0x61, 0x21, 0x10, 10, 20, 30, 40]"
        "\<lparr>sent = [], inbox = [Some [0x81, 0x25, 0x23, 0x61, 0x21, 0x10, 10, 20, 30, 40]]\<rparr>" "[]"]
  by auto

text \<open>
  Claim C3, as stated, fails. The claim names two error kinds, a malformed response and
  a missing response; the module has neither. A response of nine bytes makes the getter
  raise Python's \<open>IndexError\<close>, and an exchange in which nothing arrives makes it raise
  Python's \<open>TypeError\<close>, the exception that a discovery answer of four fields raises in
  the constructor as well.
\<close>

theorem state_failures_counterexample:
  "fst (get_state \<lparr>sent = [], inbox = [Some [0x81, 0x25, 0x23, 0x61, 0x21, 0x10, 0xff, 0, 0]]\<rparr>)
     = Inl IndexError
   \<and> fst (get_state \<lparr>sent = [], inbox = []\<rparr>) = Inl TypeError
   \<and> MagicHomeController_init 0 [''10.0.0.5'', ''AAA'', ''M1'', ''x''] = Inl TypeError"
  by (simp add: get_state_def send_def byte_at_def Let_def)

text \<open>
  Claim C3, amended. The getter fails with Python's \<open>IndexError\<close> when the response has
  fewer than ten bytes, and with Python's \<open>TypeError\<close> when no response arrived before
  the timeout; these are two different exception classes, so a caller can tell the two
  failures apart.
\<close>

theorem state_failures:
  "(length resp < 10 \<and> inbox n = Some resp # rest \<longrightarrow> fst (get_state n) = Inl IndexError)
   \<and> (inbox n = None # rest \<or> inbox n = [] \<longrightarrow> fst (get_state n) = Inl TypeError)
   \<and> IndexError \<noteq> TypeError"
  using get_state_short [of resp n rest] get_state_none [of n rest] by auto

theorem state_failures_witness:
  "fst (get_state \<lparr>sent = [], inbox = [Some [0x81, 0x25, 0x23]]\<rparr>) = Inl IndexError
   \<and> fst (get_state \<lparr>sent = [], inbox = [None]\<rparr>) = Inl TypeError"
  using state_failures [of "[0x81, 0x25, 0x23]" "\<lparr>sent = [], inbox = [Some [0x81, 0x25, 0x23]]\<rparr>" "[]"]
        state_failures [of "[]" "\<lparr>sent = [], inbox = [None]\<rparr>" "[]"]
  by simp

text \<open>
  Claim C9. \<open>power_toggle\<close> queries the state first. When the query succeeds, it then
  sends the turn-off command exactly when the reported flag is \<open>Some True\<close>; for every
  other flag, the indeterminate \<open>None\<close> included, it sends the turn-on command.
\<close>

theorem power_toggle_policy:
  assumes "get_state n = (Inr st, n1)"
  shows "fst (power_toggle n) = Inr ()
         \<and> (is_on st = Some True \<longrightarrow> snd (power_toggle n) = turn_off n1
               \<and> sent (snd (power_toggle n)) = sent n1 @ [[0x71, 0x24, 0x95]])
         \<and> (is_on st \<noteq> Some True \<longrightarrow> snd (power_toggle n) = turn_on n1
               \<and> sent (snd (power_toggle n)) = sent n1 @ [[0x71, 0x23, 0x94]])"
  using assms by (simp add: power_toggle_def sent_turn_on sent_turn_off)

theorem power_toggle_policy_witness:
  "sent (snd (power_toggle \<lparr>sent = [], inbox = [Some [0x81, 0x25, 0x23, 0x61, 0x21, 0x10, 10, 20, 30, 40]]\<rparr>))
     = [[0x81, 0x8a, 0x8b, 0x96], [0x71, 0x24, 0x95]]
   \<and> sent (snd (power_toggle \<lparr>sent = [], inbox = [Some [0x81, 0x25, 0x24, 0x61, 0x21, 0x10, 10, 20, 30, 40]]\<rparr>))
     = [[0x81, 0x8a, 0x8b, 0x96], [0x71, 0x23, 0x94]]"
  using
    power_toggle_policy [OF get_state_ok
      [of "[0x81, 0x25, 0x23, 0x61, 0x21, 0x10, 10, 20, 30, 40]"
          "\<lparr>sent = [], inbox = [Some [0x81, 0x25, 0x23, 0x61, 0x21, 0x10, 10, 20, 30, 40]]\<rparr>" "[]"]]
    power_toggle_policy [OF get_state_ok
      [of "[0x81, 0x25, 0x24, 0x61, 0x21, 0x10, 10, 20, 30, 40]"
          "\<lparr>sent = [], inbox = [Some [0x81, 0x25, 0x24, 0x61, 0x21, 0x10, 10, 20, 30, 40]]\<rparr>" "[]"]]
  by (simp add: sent_turn_on sent_turn_off)

text \<open>
  Claim C10. Pushing a state whose flag is \<open>None\<close> sends the turn-off command and
  nothing else, so the colour frame of that state is not among what was sent; a toggle
  that reads an indeterminate flag sends the turn-on command instead.
\<close>

theorem set_state_indeterminate:
  assumes "is_on s = None"
  shows "set_state s n = turn_off n
         \<and> sent (set_state s n) = sent n @ [[0x71, 0x24, 0x95]]
         \<and> color_command (r (color s)) (g (color s)) (b (color s)) (w (color s))
               \<notin> set (drop (length (sent n)) (sent (set_state s n)))
         \<and> (get_state m = (Inr st, m1) \<and> is_on st = None
               \<longrightarrow> sent (snd (power_toggle m)) = sent m1 @ [[0x71, 0x23, 0x94]])"
proof -
  have a: "set_state s n = turn_off n"
    using assms by (simp add: set_state_def truthy_def)
  have b: "sent (set_state s n) = sent n @ [[0x71, 0x24, 0x95]]"
    by (simp only: a sent_turn_off)
  have c: "color_command (r (color s)) (g (color s)) (b (color s)) (w (color s))
               \<notin> set (drop (length (sent n)) (sent (set_state s n)))"
    by (simp add: b color_command_clamped)
  have d: "sent (snd (power_toggle m)) = sent m1 @ [[0x71, 0x23, 0x94]]"
    if "get_state m = (Inr st, m1) \<and> is_on st = None"
    using that by (simp add: power_toggle_def sent_turn_on)
  from a b c d show ?thesis by blast
qed

theorem set_state_indeterminate_witness:
  "sent (set_state \<lparr>is_on = None, color = \<lparr>r = 10, g = 20, b = 30, w = 40\<rparr>\<rparr> \<lparr>sent = [], inbox = []\<rparr>)
     = [[0x71, 0x24, 0x95]]
   \<and> sent (snd (power_toggle \<lparr>sent = [], inbox = [Some [0x81, 0x25, 0x24, 0x61, 0x21, 0x10, 10, 20, 30, 40]]\<rparr>))
     = [[0x81, 0x8a, 0x8b, 0x96], [0x71, 0x23, 0x94]]"
proof -
  let ?resp = "[0x81, 0x25, 0x24, 0x61, 0x21, 0x10, 10, 20, 30, 40] :: int list"
  let ?m = "\<lparr>sent = [], inbox = [Some ?resp]\<rparr>"
  let ?st = "\<lparr>is_on = None, color = \<lparr>r = 10, g = 20, b = 30, w = 40\<rparr>\<rparr>"
  let ?m1 = "\<lparr>sent = [[0x81, 0x8a, 0x8b, 0x96]], inbox = []\<rparr>"
  have h: "is_on ?st = None" by simp
  have g: "get_state ?m = (Inr ?st, ?m1)"
    by (simp add: get_state_ok [of ?resp ?m "[]"])
  from set_state_indeterminate [OF h, of "\<lparr>sent = [], inbox = []\<rparr>" ?m ?st ?m1] g h
  show ?thesis by (simp add: sent_turn_off)
qed

lemma split_bytes_nonempty: "split_bytes sep s \<noteq> []"
  by (induction s) (auto split: list.splits)

lemma init_accepts:
  "(\<exists>c. MagicHomeController_init ob args = Inr c) \<longleftrightarrow> (1 \<le> length args \<and> length args \<le> 3)"
  by (induction ob args rule: MagicHomeController_init.induct) auto

lemma init_rejects:
  "MagicHomeController_init ob args = Inl e \<Longrightarrow> e = TypeError \<and> (args = [] \<or> 3 < length args)"
  by (induction ob args rule: MagicHomeController_init.induct) auto

lemma init_obj: "MagicHomeController_init ob args = Inr c \<Longrightarrow> obj c = ob"
  by (induction ob args rule: MagicHomeController_init.induct) auto

lemma init_any_obj:
  "MagicHomeController_init ob args = Inr c \<Longrightarrow>
   MagicHomeController_init ob' args = Inr (c\<lparr>obj := ob'\<rparr>)"
  by (induction ob args rule: MagicHomeController_init.induct) auto

lemma set_add_fresh:
  "\<forall>y\<in>set fs. obj y \<noteq> obj c \<Longrightarrow> set_add h fs c = fs @ [c]"
  by (auto simp: set_add_def list_ex_iff controller_eq_def)

lemma discover_loop_result:
  assumes "\<forall>y\<in>set (found d). obj y < allocated d"
  shows "map (\<lambda>c. (ctrl_addr c, ctrl_id c, ctrl_model c)) (found (discover_loop h ds d))
           = map (\<lambda>c. (ctrl_addr c, ctrl_id c, ctrl_model c)) (found d) @ concat (map yielded ds)
         \<and> warnings (discover_loop h ds d) = warnings d @ filter warned ds"
  using assms
proof (induction ds arbitrary: d)
  case Nil
  then show ?case by simp
next
  case (Cons data rest)
  show ?case
  proof (cases "data = broadcast_message")
    case True
    with Cons show ?thesis by (simp add: yielded_def warned_def)
  next
    case False
    show ?thesis
    proof (cases "MagicHomeController_init (allocated d) (split_bytes CHR '','' data)")
      case (Inl e)
      from init_rejects [OF Inl] split_bytes_nonempty
      have long: "3 < length (split_bytes CHR '','' data)" by blast
      then have "\<nexists>c. MagicHomeController_init 0 (split_bytes CHR '','' data) = Inr c"
        by (simp add: init_accepts)
      then have y: "yielded data = []"
        by (auto simp: yielded_def split: sum.splits)
      have w: "warned data" using False long by (simp add: warned_def)
      let ?d = "d\<lparr>warnings := warnings d @ [data]\<rparr>"
      have inv: "\<forall>y\<in>set (found ?d). obj y < allocated ?d" using Cons.prems by simp
      from Cons.IH [OF inv] False Inl y w show ?thesis by simp
    next
      case (Inr c)
      have oc: "obj c = allocated d" by (rule init_obj [OF Inr])
      have fresh: "\<forall>y\<in>set (found d). obj y \<noteq> obj c" using Cons.prems oc by auto
      have add: "set_add h (found d) c = found d @ [c]" by (rule set_add_fresh [OF fresh])
      from init_any_obj [OF Inr, of 0]
      have y: "yielded data = [(ctrl_addr c, ctrl_id c, ctrl_model c)]"
        using False by (simp add: yielded_def)
      from Inr have "length (split_bytes CHR '','' data) \<le> 3"
        using init_accepts [of "allocated d" "split_bytes CHR '','' data"] by auto
      then have w: "\<not> warned data" by (simp add: warned_def)
      let ?d = "d\<lparr>found := set_add h (found d) c, allocated := Suc (allocated d)\<rparr>"
      have inv: "\<forall>y\<in>set (found ?d). obj y < allocated ?d"
        using Cons.prems oc by (auto simp: add less_Suc_eq)
      from Cons.IH [OF inv] False Inr y w add show ?thesis by simp
    qed
  qed
qed

lemma discover_result:
  "map (\<lambda>c. (ctrl_addr c, ctrl_id c, ctrl_model c)) (found (discover h ds)) = concat (map yielded ds)
   \<and> warnings (discover h ds) = filter warned ds"
  using discover_loop_result [of "\<lparr>found = [], warnings = [], allocated = 0\<rparr>" h ds]
  by (simp add: discover_def)

lemma discover_loop_skips_probe:
  "discover_loop h (filter (\<lambda>data. data \<noteq> broadcast_message) ds) d = discover_loop h ds d"
proof (induction ds arbitrary: d)
  case Nil
  show ?case by simp
next
  case (Cons data rest)
  show ?case
  proof (cases "data = broadcast_message")
    case True
    then show ?thesis by (simp add: Cons.IH)
  next
    case False
    then show ?thesis by (simp add: Cons.IH split: sum.split)
  qed
qed

lemma yielded_fields:
  "data \<noteq> broadcast_message \<Longrightarrow> split_bytes CHR '','' data = [a] \<Longrightarrow>
     yielded data = [(a, None, None)]"
  "data \<noteq> broadcast_message \<Longrightarrow> split_bytes CHR '','' data = [a, i] \<Longrightarrow>
     yielded data = [(a, Some i, None)]"
  "data \<noteq> broadcast_message \<Longrightarrow> split_bytes CHR '','' data = [a, i, m] \<Longrightarrow>
     yielded data = [(a, Some i, Some m)]"
  by (simp_all add: yielded_def)

lemma found_contains:
  assumes "data \<in> set ds" and "yielded data = [t]"
  shows "\<exists>c\<in>set (found (discover h ds)). (ctrl_addr c, ctrl_id c, ctrl_model c) = t"
proof -
  from assms have "t \<in> set (concat (map yielded ds))" by force
  then have "t \<in> set (map (\<lambda>c. (ctrl_addr c, ctrl_id c, ctrl_model c)) (found (discover h ds)))"
    by (simp only: discover_result)
  then show ?thesis by auto
qed

lemma split_example: "split_bytes CHR '','' ''10.0.0.5,AAA,M1'' = [''10.0.0.5'', ''AAA'', ''M1'']"
  by simp

lemma split_abc: "split_bytes CHR '','' ''abc'' = [''abc'']"
  by simp

text \<open>
  Claim C4. Discovery is meant to keep one controller per address. Two answers from
  the same address give two controller objects with the same hash that do not compare
  equal, so the set keeps both: the result holds two identities for that address.
\<close>

theorem discover_same_address_twice:
  "found (discover h [''10.0.0.5,AAA,M1'', ''10.0.0.5,AAA,M1''])
     = [\<lparr>obj = 0, ctrl_addr = ''10.0.0.5'', ctrl_id = Some ''AAA'', ctrl_model = Some ''M1''\<rparr>,
        \<lparr>obj = 1, ctrl_addr = ''10.0.0.5'', ctrl_id = Some ''AAA'', ctrl_model = Some ''M1''\<rparr>]"
  by (simp add: discover_def broadcast_message_def set_add_def controller_eq_def split_example
        del: split_bytes.simps)

text \<open>
  Claim C5, as stated, fails: an answer with a single field is not skipped. It yields
  a controller whose id and model are absent, and no warning is logged.
\<close>

theorem discover_one_field_counterexample:
  "found (discover (int \<circ> length) [''abc''])
     = [\<lparr>obj = 0, ctrl_addr = ''abc'', ctrl_id = None, ctrl_model = None\<rparr>]
   \<and> warnings (discover (int \<circ> length) [''abc'']) = []
   \<and> length (split_bytes CHR '','' ''abc'') \<noteq> 3"
  by (simp add: discover_def broadcast_message_def set_add_def split_abc del: split_bytes.simps)

lemma yielded_length:
  "length (yielded x)
     = (if x \<noteq> broadcast_message \<and> length (split_bytes CHR '','' x) \<le> 3 then 1 else 0)"
proof (cases "x = broadcast_message")
  case True
  then show ?thesis by (simp add: yielded_def)
next
  case False
  show ?thesis
  proof (cases "MagicHomeController_init 0 (split_bytes CHR '','' x)")
    case (Inl e)
    from init_rejects [OF Inl] split_bytes_nonempty [of "CHR '',''" x]
    have "3 < length (split_bytes CHR '','' x)" by blast
    with False Inl show ?thesis by (simp add: yielded_def)
  next
    case (Inr c)
    then have "length (split_bytes CHR '','' x) \<le> 3"
      using init_accepts [of 0 "split_bytes CHR '','' x"] by blast
    with False Inr show ?thesis by (simp add: yielded_def)
  qed
qed

lemma concat_yielded_length:
  "length (concat (map yielded ds))
     = length (filter (\<lambda>data. data \<noteq> broadcast_message
                                \<and> length (split_bytes CHR '','' data) \<le> 3) ds)"
  by (induction ds) (simp_all only: yielded_length list.map concat.simps length_append
        filter.simps list.size split: if_split, simp_all)

lemma found_has:
  assumes "data \<in> set ds" and "yielded data = [(a, i, m)]"
  shows "\<exists>c\<in>set (found (discover h ds)). ctrl_addr c = a \<and> ctrl_id c = i \<and> ctrl_model c = m"
proof -
  from found_contains [OF assms, of h]
  obtain c where "c \<in> set (found (discover h ds))"
    and "(ctrl_addr c, ctrl_id c, ctrl_model c) = (a, i, m)" by blast
  then show ?thesis by (intro bexI [of _ c]) simp_all
qed

text \<open>
  Claim C5, amended. During discovery the answers reported with a warning are exactly
  those, other than the probe, that split into more than three comma-separated fields;
  they do not stop the enumeration. Every other answer than the probe yields an
  identity: address, id and model for three fields, address and id for two, the address
  alone for one. Datagrams equal to the probe are ignored: removing them from the
  input changes nothing.
\<close>

theorem discover_responses:
  "set (warnings (discover h ds))
     = {data \<in> set ds. data \<noteq> broadcast_message \<and> 3 < length (split_bytes CHR '','' data)}
   \<and> (data \<in> set ds \<and> data \<noteq> broadcast_message \<and> split_bytes CHR '','' data = [a, i, m]
        \<longrightarrow> (\<exists>c\<in>set (found (discover h ds)).
               ctrl_addr c = a \<and> ctrl_id c = Some i \<and> ctrl_model c = Some m))
   \<and> (data \<in> set ds \<and> data \<noteq> broadcast_message \<and> split_bytes CHR '','' data = [a, i]
        \<longrightarrow> (\<exists>c\<in>set (found (discover h ds)).
               ctrl_addr c = a \<and> ctrl_id c = Some i \<and> ctrl_model c = None))
   \<and> (data \<in> set ds \<and> data \<noteq> broadcast_message \<and> split_bytes CHR '','' data = [a]
        \<longrightarrow> (\<exists>c\<in>set (found (discover h ds)).
               ctrl_addr c = a \<and> ctrl_id c = None \<and> ctrl_model c = None))
   \<and> length (found (discover h ds))
       = length (filter (\<lambda>data. data \<noteq> broadcast_message
                                  \<and> length (split_bytes CHR '','' data) \<le> 3) ds)
   \<and> discover h (filter (\<lambda>data. data \<noteq> broadcast_message) ds) = discover h ds"
proof -
  have "warnings (discover h ds) = filter warned ds"
    using discover_result [of h ds] by (rule conjunct2)
  then have w: "set (warnings (discover h ds))
     = {data \<in> set ds. data \<noteq> broadcast_message \<and> 3 < length (split_bytes CHR '','' data)}"
    by (simp add: warned_def)
  have f3: "\<exists>c\<in>set (found (discover h ds)).
               ctrl_addr c = a \<and> ctrl_id c = Some i \<and> ctrl_model c = Some m"
    if p: "data \<in> set ds \<and> data \<noteq> broadcast_message \<and> split_bytes CHR '','' data = [a, i, m]"
  proof (rule found_has)
    show "data \<in> set ds" using p by (rule conjunct1)
    show "yielded data = [(a, Some i, Some m)]" using p by (intro yielded_fields(3)) simp_all
  qed
  have f2: "\<exists>c\<in>set (found (discover h ds)).
               ctrl_addr c = a \<and> ctrl_id c = Some i \<and> ctrl_model c = None"
    if p: "data \<in> set ds \<and> data \<noteq> broadcast_message \<and> split_bytes CHR '','' data = [a, i]"
  proof (rule found_has)
    show "data \<in> set ds" using p by (rule conjunct1)
    show "yielded data = [(a, Some i, None)]" using p by (intro yielded_fields(2)) simp_all
  qed
  have f1: "\<exists>c\<in>set (found (discover h ds)).
               ctrl_addr c = a \<and> ctrl_id c = None \<and> ctrl_model c = None"
    if p: "data \<in> set ds \<and> data \<noteq> broadcast_message \<and> split_bytes CHR '','' data = [a]"
  proof (rule found_has)
    show "data \<in> set ds" using p by (rule conjunct1)
    show "yielded data = [(a, None, None)]" using p by (intro yielded_fields(1)) simp_all
  qed
  have "length (found (discover h ds))
          = length (map (\<lambda>c. (ctrl_addr c, ctrl_id c, ctrl_model c)) (found (discover h ds)))"
    by (simp only: length_map)
  also have "\<dots> = length (concat (map yielded ds))"
    using discover_result [of h ds] by (simp only:)
  finally have n: "length (found (discover h ds))
       = length (filter (\<lambda>data. data \<noteq> broadcast_message
                                  \<and> length (split_bytes CHR '','' data) \<le> 3) ds)"
    by (simp only: concat_yielded_length)
  have p: "discover h (filter (\<lambda>data. data \<noteq> broadcast_message) ds) = discover h ds"
    by (simp only: discover_def discover_loop_skips_probe)
  show ?thesis
    apply (intro conjI impI)
    apply (rule w)
    apply (erule f3)
    apply (erule f2)
    apply (erule f1)
    apply (rule n)
    apply (rule p)
    done
qed

theorem discover_responses_witness:
  "(''a,b,c,d'' \<in> set (warnings (discover (int \<circ> length)
       [''a,b,c,d'', ''HF-A11ASSISTHREAD'', ''10.0.0.5,AAA,M1'', ''10.0.0.6,BBB'', ''abc''])))
   \<and> (\<exists>c\<in>set (found (discover (int \<circ> length)
       [''a,b,c,d'', ''HF-A11ASSISTHREAD'', ''10.0.0.5,AAA,M1'', ''10.0.0.6,BBB'', ''abc''])).
         ctrl_addr c = ''10.0.0.5'' \<and> ctrl_id c = Some ''AAA'' \<and> ctrl_model c = Some ''M1'')
   \<and> (\<exists>c\<in>set (found (discover (int \<circ> length)
       [''a,b,c,d'', ''HF-A11ASSISTHREAD'', ''10.0.0.5,AAA,M1'', ''10.0.0.6,BBB'', ''abc''])).
         ctrl_addr c = ''10.0.0.6'' \<and> ctrl_id c = Some ''BBB'' \<and> ctrl_model c = None)
   \<and> (\<exists>c\<in>set (found (discover (int \<circ> length)
       [''a,b,c,d'', ''HF-A11ASSISTHREAD'', ''10.0.0.5,AAA,M1'', ''10.0.0.6,BBB'', ''abc''])).
         ctrl_addr c = ''abc'' \<and> ctrl_id c = None \<and> ctrl_model c = None)
   \<and> length (found (discover (int \<circ> length)
       [''a,b,c,d'', ''HF-A11ASSISTHREAD'', ''10.0.0.5,AAA,M1'', ''10.0.0.6,BBB'', ''abc''])) = 3"
proof -
  let ?ds = "[''a,b,c,d'', ''HF-A11ASSISTHREAD'', ''10.0.0.5,AAA,M1'', ''10.0.0.6,BBB'', ''abc'']"
  have s0: "split_bytes CHR '','' ''a,b,c,d'' = [''a'', ''b'', ''c'', ''d'']" by simp
  have s2: "split_bytes CHR '','' ''10.0.0.6,BBB'' = [''10.0.0.6'', ''BBB'']" by simp
  have s9: "split_bytes CHR '','' ''HF-A11ASSISTHREAD'' = [''HF-A11ASSISTHREAD'']" by simp
  note t3 = discover_responses [of "int \<circ> length" ?ds "''10.0.0.5,AAA,M1''" "''10.0.0.5''" "''AAA''" "''M1''"]
  note t2 = discover_responses [of "int \<circ> length" ?ds "''10.0.0.6,BBB''" "''10.0.0.6''" "''BBB''" "''M1''"]
  note t1 = discover_responses [of "int \<circ> length" ?ds "''abc''" "''abc''" "''AAA''" "''M1''"]
  have w: "''a,b,c,d'' \<in> set (warnings (discover (int \<circ> length) ?ds))"
    using t3 by (simp add: broadcast_message_def s0 del: split_bytes.simps)
  have c3: "\<exists>c\<in>set (found (discover (int \<circ> length) ?ds)).
         ctrl_addr c = ''10.0.0.5'' \<and> ctrl_id c = Some ''AAA'' \<and> ctrl_model c = Some ''M1''"
    using t3 by (simp add: broadcast_message_def split_example del: split_bytes.simps)
  have c2: "\<exists>c\<in>set (found (discover (int \<circ> length) ?ds)).
         ctrl_addr c = ''10.0.0.6'' \<and> ctrl_id c = Some ''BBB'' \<and> ctrl_model c = None"
    using t2 by (simp add: broadcast_message_def s2 del: split_bytes.simps)
  have c1: "\<exists>c\<in>set (found (discover (int \<circ> length) ?ds)).
         ctrl_addr c = ''abc'' \<and> ctrl_id c = None \<and> ctrl_model c = None"
    using t1 by (simp add: broadcast_message_def split_abc del: split_bytes.simps)
  have n: "length (found (discover (int \<circ> length) ?ds)) = 3"
    using t3 by (simp add: broadcast_message_def s0 s2 s9 split_example split_abc
                  del: split_bytes.simps)
  from w c3 c2 c1 n show ?thesis by blast
qed

theorem discover_same_address_twice_witness:
  "length (filter (\<lambda>c. ctrl_addr c = ''10.0.0.5'')
     (found (discover (int \<circ> length) [''10.0.0.5,AAA,M1'', ''10.0.0.5,AAA,M1'']))) = 2"
  using discover_same_address_twice [of "int \<circ> length"] by simp

lemma connect_none: "connect None = Inl (MagicHomeDeviceNotFound ''does not respond.'')"
  by (simp add: connect_def)

lemma connect_some:
  "connect (Some data) =
     (case MagicHomeController_init 0 (split_bytes CHR '','' data) of
        Inl e \<Rightarrow> Inl (MagicHomeDeviceNotFound ''does not respond as expected.'')
      | Inr c \<Rightarrow> Inr c)"
  by (simp add: connect_def)

text \<open>
  Claim C6, as stated, fails when a malformed answer is one that does not split into
  exactly three fields: an answer with a single field is returned as a controller.
\<close>

theorem connect_one_field_counterexample:
  "connect (Some ''abc'') = Inr \<lparr>obj = 0, ctrl_addr = ''abc'', ctrl_id = None, ctrl_model = None\<rparr>
   \<and> length (split_bytes CHR '','' ''abc'') \<noteq> 3"
  by (simp add: connect_some split_abc del: split_bytes.simps)

text \<open>
  Claim C6, amended. \<open>connect\<close> raises \<open>MagicHomeDeviceNotFound\<close> in exactly two
  cases: no answer arrived before the timeout, or the answer splits into more than
  three comma-separated fields. Otherwise it returns the controller parsed from the
  answer: address, id and model for three fields, address and id for two, the address
  alone for one.
\<close>

theorem connect_outcomes:
  "(received = None \<longrightarrow> connect received = Inl (MagicHomeDeviceNotFound ''does not respond.''))
   \<and> (received = Some data \<and> 3 < length (split_bytes CHR '','' data)
        \<longrightarrow> connect received = Inl (MagicHomeDeviceNotFound ''does not respond as expected.''))
   \<and> (received = Some data \<and> split_bytes CHR '','' data = [a, i, m]
        \<longrightarrow> connect received
              = Inr \<lparr>obj = 0, ctrl_addr = a, ctrl_id = Some i, ctrl_model = Some m\<rparr>)
   \<and> (received = Some data \<and> split_bytes CHR '','' data = [a, i]
        \<longrightarrow> connect received
              = Inr \<lparr>obj = 0, ctrl_addr = a, ctrl_id = Some i, ctrl_model = None\<rparr>)
   \<and> (received = Some data \<and> split_bytes CHR '','' data = [a]
        \<longrightarrow> connect received
              = Inr \<lparr>obj = 0, ctrl_addr = a, ctrl_id = None, ctrl_model = None\<rparr>)
   \<and> ((\<exists>e. connect received = Inl e)
        \<longleftrightarrow> received = None
            \<or> (\<exists>d. received = Some d \<and> 3 < length (split_bytes CHR '','' d)))"
proof -
  have long: "connect (Some d) = Inl (MagicHomeDeviceNotFound ''does not respond as expected.'')"
    if "3 < length (split_bytes CHR '','' d)" for d
  proof -
    from that have "\<nexists>c. MagicHomeController_init 0 (split_bytes CHR '','' d) = Inr c"
      by (simp add: init_accepts)
    then show ?thesis by (simp add: connect_some split: sum.split)
  qed
  have short: "\<exists>c. connect (Some d) = Inr c" if "\<not> 3 < length (split_bytes CHR '','' d)" for d
  proof -
    from that split_bytes_nonempty [of "CHR '',''" d]
    have "1 \<le> length (split_bytes CHR '','' d) \<and> length (split_bytes CHR '','' d) \<le> 3"
      by (cases "split_bytes CHR '','' d") simp_all
    then obtain c where "MagicHomeController_init 0 (split_bytes CHR '','' d) = Inr c"
      using init_accepts [of 0 "split_bytes CHR '','' d"] by blast
    then show ?thesis by (simp add: connect_some)
  qed
  have iff: "(\<exists>e. connect received = Inl e)
        \<longleftrightarrow> received = None
            \<or> (\<exists>d. received = Some d \<and> 3 < length (split_bytes CHR '','' d))"
  proof (cases received)
    case None
    then show ?thesis by (simp add: connect_none)
  next
    case (Some d)
    show ?thesis
    proof (cases "3 < length (split_bytes CHR '','' d)")
      case True
      with Some long [OF True] show ?thesis by simp
    next
      case False
      with Some short [OF False] show ?thesis by auto
    qed
  qed
  show ?thesis
    apply (intro conjI impI)
    apply (simp add: connect_none)
    apply (elim conjE, simp only: long)
    apply (elim conjE, simp add: connect_some del: split_bytes.simps)
    apply (elim conjE, simp add: connect_some del: split_bytes.simps)
    apply (elim conjE, simp add: connect_some del: split_bytes.simps)
    apply (rule iff)
    done
qed

theorem connect_outcomes_witness:
  "connect None = Inl (MagicHomeDeviceNotFound ''does not respond.'')
   \<and> connect (Some ''a,b,c,d'') = Inl (MagicHomeDeviceNotFound ''does not respond as expected.'')
   \<and> connect (Some ''10.0.0.5,AAA,M1'')
       = Inr \<lparr>obj = 0, ctrl_addr = ''10.0.0.5'', ctrl_id = Some ''AAA'', ctrl_model = Some ''M1''\<rparr>
   \<and> connect (Some ''10.0.0.6,BBB'')
       = Inr \<lparr>obj = 0, ctrl_addr = ''10.0.0.6'', ctrl_id = Some ''BBB'', ctrl_model = None\<rparr>
   \<and> connect (Some ''abc'')
       = Inr \<lparr>obj = 0, ctrl_addr = ''abc'', ctrl_id = None, ctrl_model = None\<rparr>"
proof -
  have s0: "split_bytes CHR '','' ''a,b,c,d'' = [''a'', ''b'', ''c'', ''d'']" by simp
  have s2: "split_bytes CHR '','' ''10.0.0.6,BBB'' = [''10.0.0.6'', ''BBB'']" by simp
  have a: "connect None = Inl (MagicHomeDeviceNotFound ''does not respond.'')"
    using connect_outcomes [of None] by simp
  have b: "connect (Some ''a,b,c,d'') = Inl (MagicHomeDeviceNotFound ''does not respond as expected.'')"
    using connect_outcomes [of "Some ''a,b,c,d''" "''a,b,c,d''"]
    by (simp add: s0 del: split_bytes.simps)
  have c: "connect (Some ''10.0.0.5,AAA,M1'')
       = Inr \<lparr>obj = 0, ctrl_addr = ''10.0.0.5'', ctrl_id = Some ''AAA'', ctrl_model = Some ''M1''\<rparr>"
    using connect_outcomes [of "Some ''10.0.0.5,AAA,M1''" "''10.0.0.5,AAA,M1''" "''10.0.0.5''" "''AAA''" "''M1''"]
    by (simp add: split_example del: split_bytes.simps)
  have d: "connect (Some ''10.0.0.6,BBB'')
       = Inr \<lparr>obj = 0, ctrl_addr = ''10.0.0.6'', ctrl_id = Some ''BBB'', ctrl_model = None\<rparr>"
    using connect_outcomes [of "Some ''10.0.0.6,BBB''" "''10.0.0.6,BBB''" "''10.0.0.6''" "''BBB''"]
    by (simp add: s2 del: split_bytes.simps)
  have e: "connect (Some ''abc'')
       = Inr \<lparr>obj = 0, ctrl_addr = ''abc'', ctrl_id = None, ctrl_model = None\<rparr>"
    using connect_outcomes [of "Some ''abc''" "''abc''" "''abc''"]
    by (simp add: split_abc del: split_bytes.simps)
  from a b c d e show ?thesis by blast
qed

subsection \<open>Rounding to binary64\<close>

lemma quotient_of_pos:
  assumes "0 < x" and "quotient_of x = (p, q)"
  shows "0 < p \<and> 0 < q \<and> x = of_int p / of_int q"
proof -
  have q: "0 < q" using assms(2) by (rule quotient_of_denom_pos)
  have x: "x = of_int p / of_int q" using assms(2) by (rule quotient_of_div)
  from assms(1) x q have "0 < p" by (simp add: zero_less_divide_iff)
  with q x show ?thesis by simp
qed

lemma bitlen_powi:
  assumes "0 < (n::int)"
  shows "(2::rat) powi (bitlen n - 1) \<le> of_int n \<and> of_int n < (2::rat) powi bitlen n"
proof -
  from bitlen_bounds [OF assms]
  have lo: "2 ^ nat (bitlen n - 1) \<le> n" and hi: "n < 2 ^ nat (bitlen n)" by simp_all
  have b1: "1 \<le> bitlen n" using assms by (auto simp: bitlen_alt_def)
  have "(of_int (2 ^ nat (bitlen n - 1)) :: rat) \<le> of_int n" using lo by (simp only: of_int_le_iff)
  then have l: "(2::rat) powi (bitlen n - 1) \<le> of_int n" using b1 by (simp add: power_int_def)
  have "(of_int n :: rat) < of_int (2 ^ nat (bitlen n))" using hi by (simp only: of_int_less_iff)
  then have h: "of_int n < (2::rat) powi bitlen n" using b1 by (simp add: power_int_def)
  from l h show ?thesis by simp
qed


lemma ilog2_bounds:
  assumes "0 < x"
  shows "2 powi ilog2 x \<le> x \<and> x < 2 powi (ilog2 x + 1)"
proof -
  obtain p q where pq: "quotient_of x = (p, q)" by (cases "quotient_of x")
  from quotient_of_pos [OF assms pq]
  have p: "0 < p" and q: "0 < q" and x: "x = of_int p / of_int q" by simp_all
  define k where "k = bitlen p - bitlen q"
  from bitlen_powi [OF p]
  have pl: "2 powi (bitlen p - 1) \<le> (of_int p :: rat)"
    and ph: "(of_int p :: rat) < 2 powi bitlen p" by simp_all
  from bitlen_powi [OF q]
  have ql: "2 powi (bitlen q - 1) \<le> (of_int q :: rat)"
    and qh: "(of_int q :: rat) < 2 powi bitlen q" by simp_all
  have qr: "0 < (of_int q :: rat)" using q by simp
  have lo: "2 powi (k - 1) \<le> x"
  proof -
    have "(2::rat) powi (k - 1) * of_int q \<le> 2 powi (k - 1) * 2 powi bitlen q"
      using qh by (intro mult_left_mono) simp_all
    also have "\<dots> = 2 powi (bitlen p - 1)"
      by (simp add: k_def flip: power_int_add)
    also have "\<dots> \<le> of_int p" by (rule pl)
    finally show ?thesis using qr by (simp add: x pos_le_divide_eq)
  qed
  have hi: "x < 2 powi (k + 1)"
  proof -
    have "(of_int p :: rat) < 2 powi bitlen p" by (rule ph)
    also have "\<dots> = 2 powi (k + 1) * 2 powi (bitlen q - 1)"
      by (simp add: k_def flip: power_int_add)
    also have "\<dots> \<le> 2 powi (k + 1) * of_int q"
      using ql by (intro mult_left_mono) simp_all
    finally show ?thesis using qr by (simp add: x pos_divide_less_eq)
  qed
  have il: "ilog2 x = (if 2 powi k \<le> x then k else k - 1)"
    by (simp add: ilog2_def pq k_def Let_def)
  show ?thesis using lo hi by (auto simp: il)
qed

lemma ilog2_eq:
  assumes "0 < x" and lo: "2 powi e \<le> x" and hi: "x < 2 powi (e + 1)"
  shows "ilog2 x = e"
proof -
  from ilog2_bounds [OF assms(1)]
  have l: "2 powi ilog2 x \<le> x" and h: "x < 2 powi (ilog2 x + 1)" by simp_all
  have "\<not> ilog2 x < e"
  proof
    assume "ilog2 x < e"
    then have "(2::rat) powi (ilog2 x + 1) \<le> 2 powi e" by (intro power_int_increasing) simp_all
    with h lo show False by simp
  qed
  moreover have "\<not> e < ilog2 x"
  proof
    assume "e < ilog2 x"
    then have "(2::rat) powi (e + 1) \<le> 2 powi ilog2 x" by (intro power_int_increasing) simp_all
    with l hi show False by simp
  qed
  ultimately show ?thesis by simp
qed

lemma round_even_of_int: "round_even (of_int n) = n"
  by (simp add: round_even_def)

lemma round_even_ge:
  assumes "of_int n \<le> y"
  shows "n \<le> round_even y"
proof -
  have "n \<le> \<lfloor>y\<rfloor>" using assms by (simp add: le_floor_iff)
  then show ?thesis by (simp add: round_even_def Let_def)
qed

lemma round_even_le:
  assumes "y \<le> of_int n"
  shows "round_even y \<le> n"
proof (cases "y = of_int n")
  case True
  then show ?thesis by (simp add: round_even_of_int)
next
  case False
  with assms have "y < of_int n" by simp
  then have "\<lfloor>y\<rfloor> < n" by (simp add: floor_less_iff)
  then show ?thesis by (simp add: round_even_def Let_def)
qed


lemma round64_zero: "round64 0 = Fin 0"
  by (simp add: round64_def)

lemma round64_nonneg:
  assumes "0 \<le> x"
  shows "round64 x = PosInf \<or> (\<exists>v. round64 x = Fin v \<and> 0 \<le> v)"
proof (cases "x = 0")
  case True
  then show ?thesis by (simp add: round64_zero)
next
  case False
  with assms have x: "0 < x" by simp
  define e where "e = max (ilog2 \<bar>x\<bar>) (- 1022)"
  define q :: rat where "q = 2 powi (e - 52)"
  have q: "0 < q" by (simp add: q_def)
  have "0 \<le> \<bar>x\<bar> / q" using q by simp
  then have "0 \<le> round_even (\<bar>x\<bar> / q)" using round_even_ge [of 0 "\<bar>x\<bar> / q"] by simp
  then have "0 \<le> of_int (round_even (\<bar>x\<bar> / q)) * q" using q by simp
  then show ?thesis using x by (simp add: round64_def Let_def e_def q_def)
qed


lemma round64_at:
  assumes lo: "2 powi e \<le> \<bar>x\<bar>" and hi: "\<bar>x\<bar> < 2 powi (e + 1)"
    and "- 1022 \<le> e" and "e \<le> 1022"
  shows "round64 x =
           Fin (sgn x * of_int (round_even (\<bar>x\<bar> / 2 powi (e - 52))) * 2 powi (e - 52))"
proof -
  have "(0::rat) < 2 powi e" by simp
  from this lo have pos: "0 < \<bar>x\<bar>" by (rule less_le_trans)
  then have nz: "x \<noteq> 0" by simp
  from pos lo hi have "ilog2 \<bar>x\<bar> = e" by (rule ilog2_eq)
  with assms(3,4) nz show ?thesis by (simp add: round64_def Let_def max_def)
qed

lemma ilog2_ge_0:
  assumes "1 \<le> x"
  shows "0 \<le> ilog2 x"
proof (rule ccontr)
  assume "\<not> 0 \<le> ilog2 x"
  then have "ilog2 x + 1 \<le> 0" by simp
  then have "(2::rat) powi (ilog2 x + 1) \<le> 2 powi 0" by (intro power_int_increasing) simp_all
  moreover from assms have "0 < x" by simp
  then have "x < 2 powi (ilog2 x + 1)" using ilog2_bounds by blast
  ultimately show False using assms by simp
qed

lemma powi_shift:
  assumes "e \<le> 52"
  shows "(2::rat) powi (e - 52) = 1 / of_int (2 ^ nat (52 - e))"
proof -
  have "(2::rat) powi (e - 52) = 2 powi (- (52 - e))" by simp
  also have "\<dots> = 1 / 2 powi (52 - e)" by (rule power_int_minus_divide)
  also have "(2::rat) powi (52 - e) = 2 ^ nat (52 - e)" using assms by (simp add: power_int_def)
  finally show ?thesis by simp
qed

lemma round64_of_int:
  assumes "\<bar>n\<bar> < 2 ^ 53"
  shows "round64 (of_int n) = Fin (of_int n)"
proof (cases "n = 0")
  case True
  then show ?thesis by (simp add: round64_zero)
next
  case False
  define a where "a = \<bar>n\<bar>"
  define x :: rat where "x = of_int n"
  have ax: "\<bar>x\<bar> = of_int a" by (simp add: a_def x_def)
  have a1: "1 \<le> a" using False by (simp add: a_def)
  then have x1: "1 \<le> \<bar>x\<bar>" by (simp add: ax)
  then have pos: "0 < \<bar>x\<bar>" by simp
  define e where "e = ilog2 \<bar>x\<bar>"
  have e0: "0 \<le> e" unfolding e_def using x1 by (rule ilog2_ge_0)
  have lo: "2 powi e \<le> \<bar>x\<bar>" unfolding e_def using ilog2_bounds [OF pos] by simp
  have e52: "e \<le> 52"
  proof (rule ccontr)
    assume "\<not> e \<le> 52"
    then have "53 \<le> e" by simp
    then have "(2::rat) powi 53 \<le> 2 powi e" by (intro power_int_increasing) simp_all
    with lo have "(2::rat) powi 53 \<le> of_int a" by (simp add: ax)
    then have "(of_int (2 ^ 53) :: rat) \<le> of_int a" by simp
    then have "(2::int) ^ 53 \<le> a" by (simp only: of_int_le_iff)
    with assms show False by (simp add: a_def)
  qed
  have q: "(2::rat) powi (e - 52) = 1 / of_int (2 ^ nat (52 - e))" using e52 by (rule powi_shift)
  have m: "round_even (\<bar>x\<bar> / 2 powi (e - 52)) = a * 2 ^ nat (52 - e)"
  proof -
    have "\<bar>x\<bar> / 2 powi (e - 52) = of_int (a * 2 ^ nat (52 - e))" by (simp add: q ax)
    then show ?thesis by (simp only: round_even_of_int)
  qed
  have nz: "x \<noteq> 0" using pos by simp
  have "round64 x = Fin (sgn x * of_int (a * 2 ^ nat (52 - e)) * (1 / of_int (2 ^ nat (52 - e))))"
    using nz e0 e52 m q by (simp add: round64_def Let_def e_def [symmetric] max_def)
  also have "sgn x * of_int (a * 2 ^ nat (52 - e)) * (1 / of_int (2 ^ nat (52 - e))) = sgn x * \<bar>x\<bar>"
    by (simp add: ax)
  also have "sgn x * \<bar>x\<bar> = x" by (simp add: sgn_mult_abs)
  finally show ?thesis by (simp add: x_def)
qed


lemma floor_rat_numeral:
  "\<lfloor>numeral a / numeral c :: rat\<rfloor> = numeral a div numeral c"
  using floor_divide_of_int_eq [of "numeral a" "numeral c", where ?'a = rat] by simp

lemma floor_rat_neg_numeral:
  "\<lfloor>- (numeral a / numeral c) :: rat\<rfloor> = - numeral a div numeral c"
  using floor_divide_of_int_eq [of "- numeral a" "numeral c", where ?'a = rat] by simp

lemma ceiling_rat_numeral:
  "\<lceil>numeral a / numeral c :: rat\<rceil> = - (- numeral a div numeral c)"
  by (simp add: ceiling_def floor_rat_neg_numeral)

lemma ceiling_rat_neg_numeral:
  "\<lceil>- (numeral a / numeral c) :: rat\<rceil> = - (numeral a div numeral c)"
  by (simp add: ceiling_def floor_rat_numeral)

lemmas rat_floor = floor_rat_numeral floor_rat_neg_numeral ceiling_rat_numeral
  ceiling_rat_neg_numeral

lemma round64_numeral:
  "(numeral k :: int) < 2 ^ 53 \<Longrightarrow> round64 (numeral k) = Fin (numeral k)"
  using round64_of_int [of "numeral k"] by simp

lemma round64_neg_numeral:
  "(numeral k :: int) < 2 ^ 53 \<Longrightarrow> round64 (- numeral k) = Fin (- numeral k)"
  using round64_of_int [of "- numeral k"] by simp

lemma round64_one: "round64 1 = Fin 1"
  using round64_of_int [of 1] by simp

lemma round64_minus_one: "round64 (- 1) = Fin (- 1)"
  using round64_of_int [of "- 1"] by simp

lemmas round64_ints = round64_zero round64_one round64_minus_one round64_numeral
  round64_neg_numeral

lemma one_third: "ONE_THIRD = Fin (6004799503160661 / 18014398509481984)"
  unfolding ONE_THIRD_def using round64_at [of "- 2" "1 / 3"]
  by (simp add: round_even_def Let_def rat_floor)

lemma one_sixth: "ONE_SIXTH = Fin (6004799503160661 / 36028797018963968)"
  unfolding ONE_SIXTH_def using round64_at [of "- 3" "1 / 6"]
  by (simp add: round_even_def Let_def rat_floor)

lemma two_third: "TWO_THIRD = Fin (6004799503160661 / 9007199254740992)"
  unfolding TWO_THIRD_def using round64_at [of "- 1" "2 / 3"]
  by (simp add: round_even_def Let_def rat_floor)

lemma round64_third: "round64 (6004799503160661 / 18014398509481984) = Fin (6004799503160661 / 18014398509481984)"
  using round64_at [of "- 2" "6004799503160661 / 18014398509481984"]
  by (simp add: round_even_def Let_def rat_floor)

lemma round64_minus_third: "round64 (- (6004799503160661 / 18014398509481984)) = Fin (- (6004799503160661 / 18014398509481984))"
  using round64_at [of "- 2" "- (6004799503160661 / 18014398509481984)"]
  by (simp add: round_even_def Let_def rat_floor)

lemma round64_one_minus_third: "round64 (12009599006321323 / 18014398509481984) = Fin (6004799503160662 / 9007199254740992)"
  using round64_at [of "- 1" "12009599006321323 / 18014398509481984"]
  by (simp add: round_even_def Let_def rat_floor)

subsection \<open>Brightness\<close>

lemma hls_311: "rgb_to_hls 3 1 1 = Inr (Fin 0, Fin 2, Fin (- 1))"
  by (simp add: rgb_to_hls_def Let_def and_then_def int_to_float_def int_truediv_def fle_def
        fsub_def round64_ints)




lemma v_third: "hls_v (Fin 1) (Fin 509) (fadd (Fin 0) ONE_THIRD) = Fin 509"
  by (simp add: hls_v_def Let_def one_third one_sixth round64_third rat_floor)

lemma v_zero: "hls_v (Fin 1) (Fin 509) (Fin 0) = Fin 1"
  by (simp add: hls_v_def Let_def one_sixth fsub_def round64_ints)

lemma v_minus_third: "hls_v (Fin 1) (Fin 509) (fadd (Fin 0) (fneg ONE_THIRD)) = Fin 1"
  by (simp add: hls_v_def Let_def one_third one_sixth two_third fsub_def round64_minus_third
        round64_one_minus_third rat_floor)

lemma rgb_0_255: "hls_to_rgb (Fin 0) (Fin 255) (Fin (- 1)) = (Fin 509, Fin 1, Fin 1)"
  by (simp add: hls_to_rgb_def Let_def feq_def fle_def fsub_def round64_ints v_third v_zero
        v_minus_third)

lemma adj_253: "adjust_luminance (Fin 2) (Fin 253) False = Fin 255"
  by (simp add: adjust_luminance_def Let_def round64_ints)

lemma write_back_311:
  "write_back \<lparr>r = 3, g = 1, b = 1, w = 0\<rparr> (Fin 0) (Fin 255) (Fin (- 1))
     = Inr \<lparr>r = 509, g = 1, b = 1, w = 0\<rparr>"
  by (simp add: write_back_def rgb_0_255 and_then_def)

text \<open>
  Claim C7. The channels written back by a brightness adjustment are meant to stay in
  0..255. Starting from \<open>(3, 1, 1, 0)\<close> with delta 253, the luminance is clamped to
  255 and the conversion back gives red 509, which is written back as it is.
\<close>

theorem brightness_leaves_range:
  "change_brightness \<lparr>r = 3, g = 1, b = 1, w = 0\<rparr> (Some (Fin 253)) False
     = Inr \<lparr>r = 509, g = 1, b = 1, w = 0\<rparr>"
  by (simp add: change_brightness_def feq_def hls_311 and_then_def adj_253 write_back_311)

text \<open>
  Rounding decides channels inside 0..255 as well. Starting from \<open>(0, 1, 61, 0)\<close> with
  delta -18, the green value that \<open>hls_to_rgb\<close> returns is just below 1, where exact
  arithmetic gives 1, and \<open>int\<close> truncates it to 0.
\<close>

lemma rounding_round_1:
  "round64 (61 / 2) = Fin (61 / 2)"
  using round64_at [of "4" "61 / 2"]
  by (simp add: round_even_def Let_def rat_floor)

lemma rounding_round_2:
  "round64 (- (61 / 59)) = Fin (- (582033002689831 / 562949953421312))"
  using round64_at [of "0" "- (61 / 59)"]
  by (simp add: round_even_def Let_def rat_floor)

lemma rounding_round_3:
  "round64 (60 / 61) = Fin (4429770125282455 / 4503599627370496)"
  using round64_at [of "- 1" "60 / 61"]
  by (simp add: round_even_def Let_def rat_floor)

lemma rounding_round_4:
  "round64 (22444168634764439 / 4503599627370496) = Fin (2805521079345555 / 562949953421312)"
  using round64_at [of "2" "22444168634764439 / 4503599627370496"]
  by (simp add: round_even_def Let_def rat_floor)

lemma rounding_round_5:
  "round64 (2242571125924243 / 562949953421312) = Fin (2242571125924243 / 562949953421312)"
  using round64_at [of "1" "2242571125924243 / 562949953421312"]
  by (simp add: round_even_def Let_def rat_floor)

lemma rounding_round_6:
  "round64 (2242571125924243 / 3377699720527872) = Fin (5980189669131315 / 9007199254740992)"
  using round64_at [of "- 1" "2242571125924243 / 3377699720527872"]
  by (simp add: round_even_def Let_def rat_floor)

lemma rounding_round_7:
  "round64 (25 / 2) = Fin (25 / 2)"
  using round64_at [of "3" "25 / 2"]
  by (simp add: round_even_def Let_def rat_floor)

lemma rounding_round_8:
  "round64 (6454841415076569 / 562949953421312) = Fin (6454841415076569 / 562949953421312)"
  using round64_at [of "3" "6454841415076569 / 562949953421312"]
  by (simp add: round_even_def Let_def rat_floor)

lemma rounding_round_9:
  "round64 (- (14550825067245775 / 1125899906842624)) = Fin (- (909426566702861 / 70368744177664))"
  using round64_at [of "3" "- (14550825067245775 / 1125899906842624)"]
  by (simp add: round_even_def Let_def rat_floor)

lemma rounding_round_10:
  "round64 (13730253948699457 / 562949953421312) = Fin (214535217948429 / 8796093022208)"
  using round64_at [of "4" "13730253948699457 / 562949953421312"]
  by (simp add: round_even_def Let_def rat_floor)

lemma rounding_round_11:
  "round64 (5367107606771 / 8796093022208) = Fin (5367107606771 / 8796093022208)"
  using round64_at [of "- 1" "5367107606771 / 8796093022208"]
  by (simp add: round_even_def Let_def rat_floor)

lemma rounding_round_12:
  "round64 (17965178841423291 / 18014398509481984) = Fin (4491294710355823 / 4503599627370496)"
  using round64_at [of "- 1" "17965178841423291 / 18014398509481984"]
  by (simp add: round_even_def Let_def rat_floor)

lemma rounding_round_13:
  "round64 (104584055170829 / 4398046511104) = Fin (104584055170829 / 4398046511104)"
  using round64_at [of "4" "104584055170829 / 4398046511104"]
  by (simp add: round_even_def Let_def rat_floor)

lemma rounding_round_14:
  "round64 (12304917014673 / 4503599627370496) = Fin (12304917014673 / 4503599627370496)"
  using round64_at [of "- 9" "12304917014673 / 4503599627370496"]
  by (simp add: round_even_def Let_def rat_floor)

lemma rounding_round_15:
  "round64 (1286898119935033507714573917 / 19807040628566084398385987584) = Fin (4681708087209821 / 72057594037927936)"
  using round64_at [of "- 4" "1286898119935033507714573917 / 19807040628566084398385987584"]
  by (simp add: round_even_def Let_def rat_floor)

lemma rounding_round_16:
  "round64 (14045124261629463 / 36028797018963968) = Fin (1755640532703683 / 4503599627370496)"
  using round64_at [of "- 2" "14045124261629463 / 36028797018963968"]
  by (simp add: round_even_def Let_def rat_floor)

lemma rounding_round_17:
  "round64 (4503599627370435 / 4503599627370496) = Fin (4503599627370435 / 4503599627370496)"
  using round64_at [of "- 1" "4503599627370435 / 4503599627370496"]
  by (simp add: round_even_def Let_def rat_floor)

lemma rounding_round_18:
  "round64 (5955579835101969 / 18014398509481984) = Fin (5955579835101969 / 18014398509481984)"
  using round64_at [of "- 2" "5955579835101969 / 18014398509481984"]
  by (simp add: round_even_def Let_def rat_floor)

lemmas rounding_rounds = rounding_round_1 rounding_round_2 rounding_round_3 rounding_round_4 rounding_round_5 rounding_round_6 rounding_round_7 rounding_round_8 rounding_round_9 rounding_round_10 rounding_round_11 rounding_round_12 rounding_round_13 rounding_round_14 rounding_round_15 rounding_round_16 rounding_round_17 rounding_round_18

lemma rounding_hls:
  "rgb_to_hls 0 1 61 = Inr (Fin (5980189669131315 / 9007199254740992), Fin (61 / 2), Fin (- (582033002689831 / 562949953421312)))"
  by (simp add: rgb_to_hls_def Let_def and_then_def int_to_float_def int_truediv_def fle_def
        fsub_def round64_ints rat_floor rounding_rounds)

lemma rounding_adjust:
  "adjust_luminance (Fin (61 / 2)) (Fin (- 18)) False = Fin (25 / 2)"
  by (simp add: adjust_luminance_def Let_def round64_ints rounding_rounds)

lemma rounding_rgb:
  "hls_to_rgb (Fin (5980189669131315 / 9007199254740992)) (Fin (25 / 2)) (Fin (- (582033002689831 / 562949953421312)))
     = (Fin (5367107606771 / 8796093022208), Fin (4503599627370435 / 4503599627370496), Fin (214535217948429 / 8796093022208))"
  by (simp add: hls_to_rgb_def hls_v_def Let_def feq_def fle_def fsub_def one_third one_sixth
        two_third round64_ints rat_floor rounding_rounds)

lemma change_brightness_rounding:
  "change_brightness \<lparr>r = 0, g = 1, b = 61, w = 0\<rparr> (Some (Fin (- 18))) False
     = Inr \<lparr>r = 0, g = 0, b = 24, w = 0\<rparr>"
  by (simp add: change_brightness_def feq_def and_then_def write_back_def rat_floor
        rounding_hls rounding_adjust rounding_rgb)


text \<open>The luminance of a conversion that succeeds is finite.\<close>

lemma round64_fin_bound:
  assumes "round64 x = Fin v"
  shows "\<bar>v\<bar> < 2 powi 1024"
proof (cases "x = 0")
  case True
  with assms show ?thesis by (simp add: round64_zero)
next
  case False
  then have pos: "0 < \<bar>x\<bar>" by simp
  define e where "e = max (ilog2 \<bar>x\<bar>) (- 1022)"
  define q :: rat where "q = 2 powi (e - 52)"
  define m where "m = round_even (\<bar>x\<bar> / q)"
  have q0: "0 < q" by (simp add: q_def)
  from assms False have fin: "\<not> (1023 < e \<or> (e = 1023 \<and> m = 2 ^ 53))"
    and v: "v = sgn x * of_int m * q"
    by (simp_all add: round64_def Let_def e_def [symmetric] q_def [symmetric] m_def [symmetric]
          split: if_splits)
  have m0: "0 \<le> m"
  proof -
    have "of_int 0 \<le> \<bar>x\<bar> / q" using q0 by simp
    then show ?thesis unfolding m_def by (rule round_even_ge)
  qed
  have pq: "of_int (2 ^ 53) * q = 2 powi (e + 1)"
  proof -
    have a: "(of_int (2 ^ 53) :: rat) = 2 powi 53" by simp
    have b: "(2::rat) powi 53 * 2 powi (e - 52) = 2 powi (53 + (e - 52))"
      by (rule power_int_add [symmetric]) simp
    have c: "53 + (e - 52) = e + 1" by simp
    show ?thesis by (simp only: a b c q_def)
  qed
  have m53: "m \<le> 2 ^ 53"
  proof -
    have "\<bar>x\<bar> < 2 powi (ilog2 \<bar>x\<bar> + 1)" using ilog2_bounds [OF pos] by simp
    also have "\<dots> \<le> 2 powi (e + 1)" by (intro power_int_increasing) (simp_all add: e_def)
    finally have "\<bar>x\<bar> < of_int (2 ^ 53) * q" by (simp only: pq)
    then have "\<bar>x\<bar> / q \<le> of_int (2 ^ 53)" using q0 by (simp add: pos_divide_le_eq)
    then show ?thesis unfolding m_def by (rule round_even_le)
  qed
  have av: "\<bar>v\<bar> = of_int m * q" using False m0 q0 by (simp add: v abs_mult)
  show ?thesis
  proof (cases "e = 1023")
    case True
    with fin have "m \<noteq> 2 ^ 53" by simp
    with m53 have "m < 2 ^ 53" by simp
    then have "(of_int m :: rat) < of_int (2 ^ 53)" by (simp only: of_int_less_iff)
    then have "of_int m * q < of_int (2 ^ 53) * q" using q0 by (simp only: mult_less_cancel_right_pos)
    then show ?thesis using True by (simp only: av pq) simp
  next
    case False
    with fin have e: "e + 1 \<le> 1023" by simp
    have "(of_int m :: rat) \<le> of_int (2 ^ 53)" using m53 by (simp only: of_int_le_iff)
    then have "of_int m * q \<le> of_int (2 ^ 53) * q" using q0 by (intro mult_right_mono) simp_all
    then have "\<bar>v\<bar> \<le> 2 powi (e + 1)" by (simp only: av pq)
    also have "(2::rat) powi (e + 1) \<le> 2 powi 1023" using e by (intro power_int_increasing) simp_all
    also have "(2::rat) powi 1023 < 2 powi 1024" by (intro power_int_strict_increasing) simp_all
    finally show ?thesis .
  qed
qed

lemma round64_fin:
  assumes "\<bar>y\<bar> < 2 powi 1023"
  shows "\<exists>v. round64 y = Fin v"
proof (cases "y = 0")
  case True
  then show ?thesis by (simp add: round64_zero)
next
  case False
  then have pos: "0 < \<bar>y\<bar>" by simp
  have "\<not> 1023 \<le> ilog2 \<bar>y\<bar>"
  proof
    assume "1023 \<le> ilog2 \<bar>y\<bar>"
    then have "(2::rat) powi 1023 \<le> 2 powi ilog2 \<bar>y\<bar>" by (intro power_int_increasing) simp_all
    also have "\<dots> \<le> \<bar>y\<bar>" using ilog2_bounds [OF pos] by simp
    finally show False using assms by simp
  qed
  define e where "e = max (ilog2 \<bar>y\<bar>) (- 1022)"
  from \<open>\<not> 1023 \<le> ilog2 \<bar>y\<bar>\<close> have e: "e \<le> 1022" by (simp add: e_def)
  show ?thesis unfolding round64_def Let_def e_def [symmetric] using False e by simp
qed

lemma round64_half_fin:
  assumes "round64 x = Fin v"
  shows "\<exists>u. round64 (v / 2) = Fin u"
proof -
  have "\<bar>v\<bar> < 2 powi 1024" using assms by (rule round64_fin_bound)
  then have "\<bar>v / 2\<bar> < 2 powi 1023" by simp
  then show ?thesis by (rule round64_fin)
qed

lemma and_then_Inr:
  "and_then x f = Inr y \<Longrightarrow> \<exists>a. x = Inr a \<and> f a = Inr y"
  by (cases x) (simp_all add: and_then_def)

lemma int_to_float_Inr: "int_to_float n = Inr x \<Longrightarrow> \<exists>v. x = Fin v \<and> round64 (of_int n) = Fin v"
  by (cases "round64 (of_int n)") (auto simp: int_to_float_def)

lemma rgb_to_hls_luminance:
  assumes "rgb_to_hls cr cg cb = Inr (h, l, s)"
  shows "\<exists>v. l = Fin v"
proof -
  define maxc where "maxc = max cr (max cg cb)"
  define minc where "minc = min cr (min cg cb)"
  from assms obtain fsum where 1: "int_to_float (maxc + minc) = Inr fsum"
    and 2: "and_then (fdiv fsum (Fin 2)) (\<lambda>l.
         if minc = maxc then Inr (Fin 0, l, Fin 0)
         else
           and_then
             (if fle l (Fin (1 / 2)) then int_truediv (maxc - minc) (maxc + minc)
              else and_then (int_to_float maxc) (\<lambda>fmax.
                   and_then (int_to_float minc) (\<lambda>fmin.
                   and_then (int_to_float (maxc - minc)) (\<lambda>frange.
                     fdiv frange (fsub (fsub (Fin 2) fmax) fmin)))))
             (\<lambda>s.
         and_then (int_truediv (maxc - cr) (maxc - minc)) (\<lambda>rc.
         and_then (int_truediv (maxc - cg) (maxc - minc)) (\<lambda>gc.
         and_then (int_truediv (maxc - cb) (maxc - minc)) (\<lambda>bc.
         and_then
           (fdiv (if cr = maxc then fsub bc gc
                  else if cg = maxc then fsub (fadd (Fin 2) rc) bc
                  else fsub (fadd (Fin 4) gc) rc)
                 (Fin 6))
           (\<lambda>h6. Inr (fmod1 h6, l, s))))))) = Inr (h, l, s)"
    unfolding rgb_to_hls_def Let_def maxc_def [symmetric] minc_def [symmetric]
    by (blast dest: and_then_Inr)
  from 1 obtain x where x: "fsum = Fin x" "round64 (of_int (maxc + minc)) = Fin x"
    by (blast dest: int_to_float_Inr)
  from round64_half_fin [OF x(2)] obtain u where u: "round64 (x / 2) = Fin u" by blast
  have d: "fdiv fsum (Fin 2) = Inr (Fin u)" by (simp add: x(1) u)
  from 2 have "l = Fin u"
    unfolding d
    by (auto simp: and_then_def split: if_splits sum.splits)
  then show ?thesis by blast
qed
















end
